theory Spec2Isabelle
  imports Main "HOL-Library.AList"
begin

section \<open>The push-notification server of \<^verbatim>\<open>server-python/main.py\<close>\<close>

text \<open>
  The module keeps two global objects, a \<^verbatim>\<open>TokenManager\<close> and an \<^verbatim>\<open>FCMService\<close>, and
  serves HTTP requests that call their methods. Each method is embedded as a function
  that takes the object (or both objects) and returns its result together with the
  object after the call. The clock (\<^verbatim>\<open>datetime.now().isoformat()\<close>) and the push provider
  (\<^verbatim>\<open>messaging.send\<close>) are outside the program and are parameters of the model.
  The \<^verbatim>\<open>logger\<close> calls have no effect on either object and are left out. The calls of the
  form \<^verbatim>\<open>logger.info(f"result:", x)\<close> pass \<^verbatim>\<open>x\<close> as an argument of a message that has no
  place for it; the logging module deals with that inside its handlers (at most it
  reports a formatting error on stderr), and nothing is raised into the caller.
\<close>

subsection \<open>Values that arrive in a request\<close>

text \<open>
  A decoded JSON value. \<^verbatim>\<open>register_token\<close> and \<^verbatim>\<open>send_push\<close> test such values for
  truthiness and for being a \<^verbatim>\<open>str\<close>. JSON numbers with a fraction are not represented; on
  every path below they behave as \<open>PInt\<close> does (they are not a \<^verbatim>\<open>str\<close> and not a \<^verbatim>\<open>dict\<close>).
\<close>

datatype pyval =
    PNone
  | PBool bool
  | PInt int
  | PStr string
  | PList "pyval list"
  | PDict "(string \<times> pyval) list"

text \<open>Python's truth value of an object (\<^verbatim>\<open>not x\<close> is its negation).\<close>

fun truthy :: "pyval \<Rightarrow> bool" where
  "truthy PNone = False"
| "truthy (PBool b) = b"
| "truthy (PInt n) = (n \<noteq> 0)"
| "truthy (PStr s) = (s \<noteq> [])"
| "truthy (PList xs) = (xs \<noteq> [])"
| "truthy (PDict kvs) = (kvs \<noteq> [])"

fun isinstance_str :: "pyval \<Rightarrow> bool" where
  "isinstance_str (PStr s) = True"
| "isinstance_str v = False"

fun isinstance_dict :: "pyval \<Rightarrow> bool" where
  "isinstance_dict (PDict kvs) = True"
| "isinstance_dict v = False"

text \<open>The characters of a \<^verbatim>\<open>str\<close> value; only applied to values that passed the test.\<close>

fun str_value :: "pyval \<Rightarrow> string" where
  "str_value (PStr s) = s"
| "str_value v = []"

fun dict_items :: "pyval \<Rightarrow> (string \<times> pyval) list" where
  "dict_items (PDict kvs) = kvs"
| "dict_items v = []"

text \<open>\<^verbatim>\<open>d.get(key, default)\<close> on a dictionary.\<close>

definition dict_get :: "(string \<times> pyval) list \<Rightarrow> string \<Rightarrow> pyval \<Rightarrow> pyval" where
  "dict_get d k dflt = (case map_of d k of None \<Rightarrow> dflt | Some v \<Rightarrow> v)"

type_synonym timestamp = string

subsection \<open>\<^verbatim>\<open>FCMToken\<close> (lines 26--37)\<close>

record FCMToken =
  token :: string
  registered_at :: timestamp
  last_active :: timestamp
  successful_sends :: int
  failed_sends :: int
  is_active :: bool

text \<open>
  The constructor call of line 147: the three counters and the flag take the defaults of
  the dataclass.
\<close>

definition new_FCMToken :: "string \<Rightarrow> timestamp \<Rightarrow> timestamp \<Rightarrow> FCMToken" where
  "new_FCMToken t reg act =
     \<lparr>token = t, registered_at = reg, last_active = act,
      successful_sends = 0, failed_sends = 0, is_active = True\<rparr>"

subsection \<open>\<^verbatim>\<open>TokenManager\<close> (lines 120--211)\<close>

text \<open>
  \<^verbatim>\<open>self.tokens\<close> is a Python \<^verbatim>\<open>dict\<close>: an association list in insertion order.
  \<^verbatim>\<open>k in d\<close> is \<open>map_of d k \<noteq> None\<close>, \<^verbatim>\<open>d[k] = v\<close> is \<open>AList.update k v d\<close> (in place when the
  key is there, at the end otherwise), a field assignment \<^verbatim>\<open>d[k].f = x\<close> is
  \<open>AList.map_entry k\<close>, and \<^verbatim>\<open>del d[k]\<close> is \<open>AList.delete k d\<close>. Both \<^verbatim>\<open>del\<close> statements
  of the source run on a key that is in the dictionary (line 186 on keys read from it,
  line 206 behind the test of line 205), so their \<^verbatim>\<open>KeyError\<close> is never raised.
  \<^verbatim>\<open>max_tokens\<close> is \<^verbatim>\<open>int(os.getenv('MAX_TOKENS', '10000'))\<close>: any integer.
\<close>

record TokenManager =
  tokens :: "(string \<times> FCMToken) list"
  max_tokens :: int

definition TokenManager_init :: "int \<Rightarrow> TokenManager" where
  "TokenManager_init m = \<lparr>tokens = [], max_tokens = m\<rparr>"

datatype error = ValueError string

record register_result =
  is_new :: bool
  token_count :: int

text \<open>Lines 178--188.\<close>

definition cleanup_inactive_tokens :: "TokenManager \<Rightarrow> TokenManager" where
  "cleanup_inactive_tokens tm =
     (let inactive_tokens =
            map fst (filter (\<lambda>(token_str, token_obj). \<not> is_active token_obj) (tokens tm))
      in tm\<lparr>tokens := fold AList.delete inactive_tokens (tokens tm)\<rparr>)"

text \<open>Lines 128--153. \<open>current_time\<close> is the clock reading of line 133.\<close>

definition register_token ::
  "timestamp \<Rightarrow> pyval \<Rightarrow> TokenManager \<Rightarrow> (error + register_result) \<times> TokenManager" where
  "register_token current_time tokv tm =
     (if \<not> truthy tokv \<or> \<not> isinstance_str tokv
      then (Inl (ValueError ''Invalid token provided''), tm)
      else
        let t = str_value tokv in
        if map_of (tokens tm) t \<noteq> None
        then
          let tm1 = tm\<lparr>tokens :=
                       AList.map_entry t (\<lambda>obj. obj\<lparr>last_active := current_time\<rparr>) (tokens tm)\<rparr>;
              tm2 = tm1\<lparr>tokens :=
                       AList.map_entry t (\<lambda>obj. obj\<lparr>is_active := True\<rparr>) (tokens tm1)\<rparr>
          in (Inr \<lparr>is_new = False, token_count = int (length (tokens tm2))\<rparr>, tm2)
        else
          let tm1 = (if int (length (tokens tm)) \<ge> max_tokens tm
                     then cleanup_inactive_tokens tm else tm);
              tm2 = tm1\<lparr>tokens :=
                       AList.update t (new_FCMToken t current_time current_time) (tokens tm1)\<rparr>
          in (Inr \<lparr>is_new = True, token_count = int (length (tokens tm2))\<rparr>, tm2))"

text \<open>Lines 155--157. The list holds the \<^verbatim>\<open>token\<close> field of each active record.\<close>

definition get_active_tokens :: "TokenManager \<Rightarrow> string list \<times> TokenManager" where
  "get_active_tokens tm =
     (map token (filter is_active (map snd (tokens tm))), tm)"

text \<open>
  One result dictionary of \<^verbatim>\<open>FCMService.send_message\<close>. A key that the dictionary does not
  have is \<open>None\<close>; \<^verbatim>\<open>'success'\<close> and \<^verbatim>\<open>'token'\<close> are in every result.
\<close>

record send_result =
  r_success :: bool
  r_response :: "string option"
  r_error :: "string option"
  r_token :: string
  r_error_code :: "string option"

text \<open>
  Lines 162--176, the body of the loop of \<^verbatim>\<open>update_token_stats\<close> for one result; \<open>now\<close> is
  the clock reading of line 169.
\<close>

definition update_one :: "timestamp \<Rightarrow> send_result \<Rightarrow> TokenManager \<Rightarrow> TokenManager" where
  "update_one now result tm =
     (let token_str = r_token result in
      if map_of (tokens tm) token_str \<noteq> None
      then
        if r_success result
        then
          let tm1 = tm\<lparr>tokens := AList.map_entry token_str
                       (\<lambda>obj. obj\<lparr>successful_sends := successful_sends obj + 1\<rparr>) (tokens tm)\<rparr>
          in tm1\<lparr>tokens := AList.map_entry token_str
                       (\<lambda>obj. obj\<lparr>last_active := now\<rparr>) (tokens tm1)\<rparr>
        else
          let tm1 = tm\<lparr>tokens := AList.map_entry token_str
                       (\<lambda>obj. obj\<lparr>failed_sends := failed_sends obj + 1\<rparr>) (tokens tm)\<rparr>;
              error_code = (case r_error_code result of None \<Rightarrow> [] | Some c \<Rightarrow> c)
          in if error_code \<in> set [''UNREGISTERED'', ''INVALID_ARGUMENT'']
             then tm1\<lparr>tokens := AList.map_entry token_str
                       (\<lambda>obj. obj\<lparr>is_active := False\<rparr>) (tokens tm1)\<rparr>
             else tm1
      else tm)"

text \<open>
  Lines 159--176. \<open>clock i\<close> is what the clock shows while the loop handles the result
  at index \<open>i\<close>.
\<close>

fun update_token_stats_from ::
  "(nat \<Rightarrow> timestamp) \<Rightarrow> nat \<Rightarrow> send_result list \<Rightarrow> TokenManager \<Rightarrow> TokenManager" where
  "update_token_stats_from clock i [] tm = tm"
| "update_token_stats_from clock i (result # results) tm =
     update_token_stats_from clock (Suc i) results (update_one (clock i) result tm)"

definition update_token_stats ::
  "(nat \<Rightarrow> timestamp) \<Rightarrow> send_result list \<Rightarrow> TokenManager \<Rightarrow> TokenManager" where
  "update_token_stats clock results tm = update_token_stats_from clock 0 results tm"

record stats =
  total_tokens :: int
  active_tokens :: int
  inactive_tokens :: int
  total_successful_sends :: int
  total_failed_sends :: int

text \<open>Lines 190--202.\<close>

definition get_stats :: "TokenManager \<Rightarrow> stats \<times> TokenManager" where
  "get_stats tm =
     (let active_count = sum_list (map (\<lambda>t. 1) (filter is_active (map snd (tokens tm))));
          total_successful = sum_list (map successful_sends (map snd (tokens tm)));
          total_failed = sum_list (map failed_sends (map snd (tokens tm)))
      in (\<lparr>total_tokens = int (length (tokens tm)),
           active_tokens = active_count,
           inactive_tokens = int (length (tokens tm)) - active_count,
           total_successful_sends = total_successful,
           total_failed_sends = total_failed\<rparr>, tm))"

text \<open>Lines 203--211.\<close>

definition remove_token :: "string \<Rightarrow> TokenManager \<Rightarrow> bool \<times> TokenManager" where
  "remove_token t tm =
     (if map_of (tokens tm) t \<noteq> None
      then (True, tm\<lparr>tokens := AList.delete t (tokens tm)\<rparr>)
      else (False, tm))"

subsection \<open>\<^verbatim>\<open>FCMService.send_message\<close> (lines 66--118)\<close>

text \<open>The \<^verbatim>\<open>messaging.Message\<close> built at lines 75--82.\<close>

record message =
  notification_title :: pyval
  notification_body :: pyval
  msg_data :: "(string \<times> string) list"
  msg_token :: string

text \<open>
  What one call of \<^verbatim>\<open>messaging.send\<close> does: it returns a message id, or raises one of the
  two exception classes the source names, or raises anything else (with its text).
\<close>

datatype provider_outcome =
    Delivered string
  | InvalidArgumentError string
  | UnregisteredError string
  | OtherException string

text \<open>
  The provider answers from the messages it was sent before and the one it is sent now.
\<close>

type_synonym provider = "message list \<Rightarrow> message \<Rightarrow> provider_outcome"

text \<open>
  The state of the module: the token manager, and the messages handed to
  \<^verbatim>\<open>messaging.send\<close> so far, oldest first.
\<close>

record server =
  token_manager :: TokenManager
  outbox :: "message list"

definition send_message ::
  "provider \<Rightarrow> timestamp \<Rightarrow> string \<Rightarrow> pyval \<Rightarrow> pyval \<Rightarrow> (string \<times> string) list option \<Rightarrow>
     server \<Rightarrow> send_result \<times> server" where
  "send_message prov now t title body data s =
     (let message_data0 = (case data of None \<Rightarrow> [] | Some d \<Rightarrow> d);
          message_data = AList.update ''server'' ''python-fcm''
                           (AList.update ''timestamp'' now message_data0);
          msg = \<lparr>notification_title = title, notification_body = body,
                 msg_data = message_data, msg_token = t\<rparr>;
          s1 = s\<lparr>outbox := outbox s @ [msg]\<rparr>
      in case prov (outbox s) msg of
           Delivered response \<Rightarrow>
             (\<lparr>r_success = True, r_response = Some response, r_error = None,
               r_token = t, r_error_code = None\<rparr>, s1)
         | InvalidArgumentError e \<Rightarrow>
             (\<lparr>r_success = False, r_response = None, r_error = Some ''Invalid message format'',
               r_token = t, r_error_code = Some ''INVALID_ARGUMENT''\<rparr>, s1)
         | UnregisteredError e \<Rightarrow>
             (\<lparr>r_success = False, r_response = None, r_error = Some ''Token not registered'',
               r_token = t, r_error_code = Some ''UNREGISTERED''\<rparr>, s1)
         | OtherException e \<Rightarrow>
             (\<lparr>r_success = False, r_response = None, r_error = Some e,
               r_token = t, r_error_code = Some ''UNKNOWN''\<rparr>, s1))"

subsection \<open>The \<^verbatim>\<open>/send\<close> handler (lines 364--421)\<close>

text \<open>Decimal digits of a length, for the f-string of line 409.\<close>

function show_nat :: "nat \<Rightarrow> string" where
  "show_nat n =
     (if n < 10 then [char_of (48 + n)]
      else show_nat (n div 10) @ [char_of (48 + n mod 10)])"
  by pat_completeness auto
termination
  by (relation "measure (\<lambda>n. n)") auto

declare show_nat.simps [simp del]

text \<open>
  The JSON body of a response of the handler: an error body
  \<^verbatim>\<open>{"success": False, "error": e}\<close>, or the report of lines 405--414. A response is the
  body with its status code.
\<close>

datatype response_body =
    ErrorBody string
  | ReportBody (sent: int) (failed: int) (report_message: string)
      (successes: "send_result list") (failures: "send_result list")

type_synonym http_response = "response_body \<times> nat"

text \<open>
  Lines 390--394: one \<^verbatim>\<open>send_message\<close> per token, in order. \<open>clock i\<close> is the clock
  reading inside the call for the token at index \<open>i\<close>.
\<close>

fun send_all ::
  "provider \<Rightarrow> (nat \<Rightarrow> timestamp) \<Rightarrow> nat \<Rightarrow> pyval \<Rightarrow> pyval \<Rightarrow> string list \<Rightarrow> server \<Rightarrow>
     send_result list \<times> server" where
  "send_all prov clock i title body [] s = ([], s)"
| "send_all prov clock i title body (t # ts) s =
     (let (result, s1) = send_message prov (clock i) t title body None s;
          (results, s2) = send_all prov clock (Suc i) title body ts s1
      in (result # results, s2))"

text \<open>
  Lines 378--414: the broadcast itself, once title and body are known. Line 397, the call
  of \<^verbatim>\<open>update_token_stats\<close>, is a comment in the source and is not part of the function.
\<close>

definition broadcast ::
  "provider \<Rightarrow> (nat \<Rightarrow> timestamp) \<Rightarrow> pyval \<Rightarrow> pyval \<Rightarrow> server \<Rightarrow> http_response \<times> server" where
  "broadcast prov clock title body s =
     (let (active_tokens, tm1) = get_active_tokens (token_manager s);
          s1 = s\<lparr>token_manager := tm1\<rparr>
      in if active_tokens = []
         then ((ErrorBody ''No active tokens to send to'', 400), s1)
         else
           let (results, s2) = send_all prov clock 0 title body active_tokens s1;
               succs = filter r_success results;
               fails = filter (\<lambda>r. \<not> r_success r) results
           in ((ReportBody (int (length succs)) (int (length fails))
                  (''Broadcast sent to '' @ show_nat (length succs) @ '' devices'')
                  succs fails, 200), s2))"

text \<open>
  Lines 364--421. The request is what \<^verbatim>\<open>request.get_json()\<close> gives: \<open>None\<close> when it
  raises, the decoded body otherwise. A body that is truthy and not a dictionary has no
  \<^verbatim>\<open>get\<close>; that exception and the one of \<^verbatim>\<open>get_json\<close> end in the handler of line 416.
\<close>

definition send_push ::
  "provider \<Rightarrow> (nat \<Rightarrow> timestamp) \<Rightarrow> pyval option \<Rightarrow> server \<Rightarrow> http_response \<times> server" where
  "send_push prov clock request s =
     (case request of
        None \<Rightarrow> ((ErrorBody ''Internal server error while sending notifications'', 500), s)
      | Some data \<Rightarrow>
          if \<not> truthy data
          then ((ErrorBody ''No JSON data provided'', 400), s)
          else if \<not> isinstance_dict data
          then ((ErrorBody ''Internal server error while sending notifications'', 500), s)
          else
            let body = dict_get (dict_items data) ''body''
                         (PStr ''This is a test message from Python FCM server.'');
                title = dict_get (dict_items data) ''title''
                         (PStr ''Python Server Notification'')
            in broadcast prov clock title body s)"

subsection \<open>Sequences of calls\<close>

text \<open>
  The calls a client of the two objects can make, each with the clock readings it will
  see, and what a call leaves behind.
\<close>

datatype call =
    Register timestamp pyval
  | Unregister string
  | ListActive
  | RecordResults "nat \<Rightarrow> timestamp" "send_result list"
  | Stats
  | Broadcast provider "nat \<Rightarrow> timestamp" "pyval option"

fun step :: "call \<Rightarrow> server \<Rightarrow> server" where
  "step (Register now v) s = s\<lparr>token_manager := snd (register_token now v (token_manager s))\<rparr>"
| "step (Unregister t) s = s\<lparr>token_manager := snd (remove_token t (token_manager s))\<rparr>"
| "step ListActive s = s\<lparr>token_manager := snd (get_active_tokens (token_manager s))\<rparr>"
| "step (RecordResults clock results) s =
     s\<lparr>token_manager := update_token_stats clock results (token_manager s)\<rparr>"
| "step Stats s = s\<lparr>token_manager := snd (get_stats (token_manager s))\<rparr>"
| "step (Broadcast prov clock request) s = snd (send_push prov clock request s)"

definition run :: "call list \<Rightarrow> server \<Rightarrow> server" where
  "run calls s = fold step calls s"

text \<open>Whether a call registers the identifier \<open>k\<close>.\<close>

fun registers :: "string \<Rightarrow> call \<Rightarrow> bool" where
  "registers k (Register now v) = (v = PStr k)"
| "registers k c = False"

subsection \<open>What the registry holds for an identifier\<close>

text \<open>An identifier is active when the registry holds a record for it that is active.\<close>

definition active_in :: "TokenManager \<Rightarrow> string \<Rightarrow> bool" where
  "active_in tm k = (case map_of (tokens tm) k of None \<Rightarrow> False | Some v \<Rightarrow> is_active v)"

text \<open>
  An identifier is inactive when the registry holds a record for it that is not active
  (an identifier without a record is neither active nor inactive).
\<close>

definition inactive_in :: "TokenManager \<Rightarrow> string \<Rightarrow> bool" where
  "inactive_in tm k = (case map_of (tokens tm) k of None \<Rightarrow> False | Some v \<Rightarrow> \<not> is_active v)"

text \<open>
  The calls that neither register anything nor remove the record of \<open>k\<close>: recording
  results, unregistering another identifier, listing, statistics and a broadcast.
\<close>

fun leaves_record :: "string \<Rightarrow> call \<Rightarrow> bool" where
  "leaves_record k (Register now v) = False"
| "leaves_record k (Unregister t) = (t \<noteq> k)"
| "leaves_record k c = True"

text \<open>
  What every registry reached from \<open>TokenManager_init\<close> satisfies: the keys are distinct (it
  is a dictionary), and each record sits under its own \<open>token\<close>, which is not empty.
\<close>

definition registry_ok :: "TokenManager \<Rightarrow> bool" where
  "registry_ok tm =
     (distinct (map fst (tokens tm)) \<and>
      list_all (\<lambda>(k, v). token v = k \<and> k \<noteq> []) (tokens tm))"

subsection \<open>The recording of results, in the words of the specification\<close>

text \<open>
  The specification describes \<^verbatim>\<open>recordResults\<close> on the registry as a map from identifiers to
  records: for an outcome whose identifier is present, a success increments
  \<open>successfulSends\<close> and refreshes \<open>lastActive\<close>; a failure increments \<open>failedSends\<close>, and sets
  \<open>isActive\<close> to false if its kind is \<open>Unregistered\<close> or \<open>InvalidArgument\<close>. An outcome whose
  identifier is absent changes nothing. These two functions follow those words, and
  \<open>update_token_stats\<close> above, which follows the source, is compared with them below.
\<close>

definition record_outcome_spec ::
  "timestamp \<Rightarrow> send_result \<Rightarrow> (string \<rightharpoonup> FCMToken) \<Rightarrow> (string \<rightharpoonup> FCMToken)" where
  "record_outcome_spec now outcome registry =
     (case registry (r_token outcome) of
        None \<Rightarrow> registry
      | Some record \<Rightarrow>
          if r_success outcome
          then registry(r_token outcome \<mapsto>
                 record\<lparr>successful_sends := successful_sends record + 1, last_active := now\<rparr>)
          else registry(r_token outcome \<mapsto>
                 record\<lparr>failed_sends := failed_sends record + 1,
                        is_active := (if r_error_code outcome = Some ''UNREGISTERED'' \<or>
                                         r_error_code outcome = Some ''INVALID_ARGUMENT''
                                      then False else is_active record)\<rparr>))"

fun record_results_spec ::
  "(nat \<Rightarrow> timestamp) \<Rightarrow> nat \<Rightarrow> send_result list \<Rightarrow> (string \<rightharpoonup> FCMToken) \<Rightarrow>
     (string \<rightharpoonup> FCMToken)" where
  "record_results_spec clock i [] registry = registry"
| "record_results_spec clock i (outcome # outcomes) registry =
     record_results_spec clock (Suc i) outcomes (record_outcome_spec (clock i) outcome registry)"

subsection \<open>Example states\<close>

text \<open>
  A server with an active and an inactive record, one with no active record, a provider
  that delivers to \<open>''a''\<close> only, a clock, and a list of results.
\<close>

definition example_server :: server where
  "example_server =
     \<lparr>token_manager =
        \<lparr>tokens = [(''a'', \<lparr>token = ''a'', registered_at = ''t1'', last_active = ''t1'',
                            successful_sends = 2, failed_sends = 1, is_active = True\<rparr>),
                   (''b'', \<lparr>token = ''b'', registered_at = ''t2'', last_active = ''t4'',
                            successful_sends = 3, failed_sends = 5, is_active = False\<rparr>)],
         max_tokens = 2\<rparr>,
      outbox = []\<rparr>"

definition example_idle_server :: server where
  "example_idle_server =
     \<lparr>token_manager =
        \<lparr>tokens = [(''b'', \<lparr>token = ''b'', registered_at = ''t2'', last_active = ''t4'',
                            successful_sends = 3, failed_sends = 5, is_active = False\<rparr>)],
         max_tokens = 2\<rparr>,
      outbox = []\<rparr>"

definition example_provider :: provider where
  "example_provider history m =
     (if msg_token m = ''a'' then Delivered ''message-1'' else UnregisteredError ''gone'')"

definition example_clock :: "nat \<Rightarrow> timestamp" where
  "example_clock i = (if i = 0 then ''t10'' else ''t11'')"

definition example_results :: "send_result list" where
  "example_results =
     [\<lparr>r_success = True, r_response = Some ''message-1'', r_error = None,
       r_token = ''b'', r_error_code = None\<rparr>,
      \<lparr>r_success = False, r_response = None, r_error = Some ''Token not registered'',
       r_token = ''a'', r_error_code = Some ''UNREGISTERED''\<rparr>,
      \<lparr>r_success = False, r_response = None, r_error = Some ''timeout'',
       r_token = ''b'', r_error_code = Some ''UNKNOWN''\<rparr>,
      \<lparr>r_success = False, r_response = None, r_error = Some ''Invalid message format'',
       r_token = ''zz'', r_error_code = Some ''INVALID_ARGUMENT''\<rparr>]"

section \<open>Facts about the dictionary operations\<close>

lemma map_of_fold_delete:
  "map_of (fold AList.delete ks al) k = (if k \<in> set ks then None else map_of al k)"
  by (induction ks arbitrary: al) (simp_all add: AList.delete_conv')

lemma fold_delete_filter:
  "fold AList.delete ks al = filter (\<lambda>p. fst p \<notin> set ks) al"
proof (induction ks arbitrary: al)
  case Nil
  show ?case by simp
next
  case (Cons k ks)
  have "AList.delete k al = filter (\<lambda>p. fst p \<noteq> k) al"
    by (induction al) auto
  then show ?case using Cons by (simp add: conj_commute)
qed

lemma map_entry_keys: "map fst (AList.map_entry k f xs) = map fst xs"
  by (induction xs) auto

lemma map_entry_length: "length (AList.map_entry k f xs) = length xs"
  by (induction xs) auto

lemma map_entry_others:
  "filter (\<lambda>p. fst p \<noteq> k) (AList.map_entry k f xs) = filter (\<lambda>p. fst p \<noteq> k) xs"
  by (induction xs) auto

section \<open>Eviction\<close>

lemma cleanup_all_inactive:
  assumes "\<forall>p \<in> set (tokens tm). \<not> is_active (snd p)"
  shows "tokens (cleanup_inactive_tokens tm) = []"
proof -
  have "filter (\<lambda>(token_str, token_obj). \<not> is_active token_obj) (tokens tm) = tokens tm"
    using assms by (auto simp: filter_id_conv)
  then show ?thesis
    by (simp add: cleanup_inactive_tokens_def fold_delete_filter filter_empty_conv)
qed

lemma cleanup_all_inactive_eq:
  assumes "\<forall>p \<in> set (tokens tm). \<not> is_active (snd p)"
  shows "cleanup_inactive_tokens tm = tm\<lparr>tokens := []\<rparr>"
proof -
  have "cleanup_inactive_tokens tm = tm\<lparr>tokens := tokens (cleanup_inactive_tokens tm)\<rparr>"
    by (simp add: cleanup_inactive_tokens_def Let_def)
  then show ?thesis by (simp add: cleanup_all_inactive [OF assms])
qed

lemma cleanup_max_tokens: "max_tokens (cleanup_inactive_tokens tm) = max_tokens tm"
  by (simp add: cleanup_inactive_tokens_def)

lemma map_of_cleanup:
  "map_of (tokens (cleanup_inactive_tokens tm)) k = None \<or>
   map_of (tokens (cleanup_inactive_tokens tm)) k = map_of (tokens tm) k"
  by (simp add: cleanup_inactive_tokens_def map_of_fold_delete)

section \<open>Registration\<close>

text \<open>
  C8. \<^verbatim>\<open>register_token\<close> raises exactly when its argument is the empty string or is not a
  string at all, and when it raises, it raises \<^verbatim>\<open>ValueError\<close> and the token manager it
  leaves is the one it was given: nothing was inserted, updated or evicted.
\<close>

theorem register_token_invalid_input:
  "(isl (fst (register_token now v tm)) \<longleftrightarrow> (v = PStr [] \<or> \<not> isinstance_str v)) \<and>
   (isl (fst (register_token now v tm)) \<longrightarrow>
      register_token now v tm = (Inl (ValueError ''Invalid token provided''), tm))"
  by (cases v) (simp_all add: register_token_def Let_def)

theorem register_token_invalid_input_witness:
  "register_token ''2026-01-01T00:00:00'' (PStr []) (TokenManager_init 10000) =
     (Inl (ValueError ''Invalid token provided''), TokenManager_init 10000) \<and>
   register_token ''2026-01-01T00:00:00'' (PInt 7) (TokenManager_init 10000) =
     (Inl (ValueError ''Invalid token provided''), TokenManager_init 10000) \<and>
   \<not> isl (fst (register_token ''2026-01-01T00:00:00'' (PStr ''tok-A'') (TokenManager_init 10000)))"
  using register_token_invalid_input [of "''2026-01-01T00:00:00''" "PStr []" "TokenManager_init 10000"]
    register_token_invalid_input [of "''2026-01-01T00:00:00''" "PInt 7" "TokenManager_init 10000"]
    register_token_invalid_input [of "''2026-01-01T00:00:00''" "PStr ''tok-A''" "TokenManager_init 10000"]
  by simp

text \<open>
  C3. In a registry that holds exactly \<open>max_tokens\<close> records, all of them inactive,
  registering a non-empty identifier that is not yet present evicts every record and
  inserts the new one: the registry is left with that one record, active, with both
  counters zero and both timestamps the time of the call, and the call reports a new
  identifier and a count of one.
\<close>

theorem register_at_capacity_all_inactive:
  assumes "int (length (tokens tm)) = max_tokens tm"
    and "\<forall>p \<in> set (tokens tm). \<not> is_active (snd p)"
    and "map_of (tokens tm) t = None"
    and "t \<noteq> []"
  shows "register_token now (PStr t) tm =
           (Inr \<lparr>is_new = True, token_count = 1\<rparr>,
            tm\<lparr>tokens := [(t, \<lparr>token = t, registered_at = now, last_active = now,
                               successful_sends = 0, failed_sends = 0, is_active = True\<rparr>)]\<rparr>)"
  using assms(1,3,4)
  by (simp add: register_token_def Let_def cleanup_all_inactive_eq [OF assms(2)] new_FCMToken_def)

theorem register_at_capacity_all_inactive_witness:
  "register_token ''t3'' (PStr ''c'')
     \<lparr>tokens = [(''a'', \<lparr>token = ''a'', registered_at = ''t1'', last_active = ''t1'',
                         successful_sends = 2, failed_sends = 1, is_active = False\<rparr>),
                (''b'', \<lparr>token = ''b'', registered_at = ''t2'', last_active = ''t2'',
                         successful_sends = 0, failed_sends = 1, is_active = False\<rparr>)],
      max_tokens = 2\<rparr> =
   (Inr \<lparr>is_new = True, token_count = 1\<rparr>,
    \<lparr>tokens = [(''c'', \<lparr>token = ''c'', registered_at = ''t3'', last_active = ''t3'',
                        successful_sends = 0, failed_sends = 0, is_active = True\<rparr>)],
     max_tokens = 2\<rparr>)"
  using register_at_capacity_all_inactive [of
     "\<lparr>tokens = [(''a'', \<lparr>token = ''a'', registered_at = ''t1'', last_active = ''t1'',
                         successful_sends = 2, failed_sends = 1, is_active = False\<rparr>),
                (''b'', \<lparr>token = ''b'', registered_at = ''t2'', last_active = ''t2'',
                         successful_sends = 0, failed_sends = 1, is_active = False\<rparr>)],
      max_tokens = 2\<rparr>" "''c''" "''t3''"]
  by simp

text \<open>
  C10. In a registry that holds \<open>max_tokens\<close> records or more, registering a non-empty
  identifier that is already present evicts nothing: the test for the identifier comes
  before the test of the size. The keys and their order stay as they were, every record
  under another key is unchanged (the inactive ones too), and the record of the
  identifier changes in \<open>last_active\<close> and \<open>is_active\<close> only, so its \<open>registered_at\<close>,
  \<open>successful_sends\<close> and \<open>failed_sends\<close> are kept. (The keys of a registry reached from the
  empty one are non-empty strings, see \<open>registry_ok_key_nonempty\<close>.)
\<close>

theorem reregister_no_eviction:
  assumes "int (length (tokens tm)) \<ge> max_tokens tm"
    and "map_of (tokens tm) t = Some v"
    and "t \<noteq> []"
  shows "fst (register_token now (PStr t) tm) =
           Inr \<lparr>is_new = False, token_count = int (length (tokens tm))\<rparr> \<and>
         map fst (tokens (snd (register_token now (PStr t) tm))) = map fst (tokens tm) \<and>
         filter (\<lambda>p. fst p \<noteq> t) (tokens (snd (register_token now (PStr t) tm))) =
           filter (\<lambda>p. fst p \<noteq> t) (tokens tm) \<and>
         map_of (tokens (snd (register_token now (PStr t) tm))) =
           (map_of (tokens tm))(t \<mapsto> v\<lparr>last_active := now, is_active := True\<rparr>) \<and>
         max_tokens (snd (register_token now (PStr t) tm)) = max_tokens tm"
  using assms(2,3)
  by (simp add: register_token_def Let_def map_entry_keys map_entry_length map_entry_others
        AList.map_of_map_entry)

theorem reregister_no_eviction_witness:
  "map fst (tokens (snd (register_token ''t9'' (PStr ''b'')
     \<lparr>tokens = [(''a'', \<lparr>token = ''a'', registered_at = ''t1'', last_active = ''t1'',
                         successful_sends = 2, failed_sends = 1, is_active = False\<rparr>),
                (''b'', \<lparr>token = ''b'', registered_at = ''t2'', last_active = ''t4'',
                         successful_sends = 3, failed_sends = 5, is_active = False\<rparr>)],
      max_tokens = 2\<rparr>))) = [''a'', ''b''] \<and>
   map_of (tokens (snd (register_token ''t9'' (PStr ''b'')
     \<lparr>tokens = [(''a'', \<lparr>token = ''a'', registered_at = ''t1'', last_active = ''t1'',
                         successful_sends = 2, failed_sends = 1, is_active = False\<rparr>),
                (''b'', \<lparr>token = ''b'', registered_at = ''t2'', last_active = ''t4'',
                         successful_sends = 3, failed_sends = 5, is_active = False\<rparr>)],
      max_tokens = 2\<rparr>))) ''b'' =
     Some \<lparr>token = ''b'', registered_at = ''t2'', last_active = ''t9'',
           successful_sends = 3, failed_sends = 5, is_active = True\<rparr> \<and>
   map_of (tokens (snd (register_token ''t9'' (PStr ''b'')
     \<lparr>tokens = [(''a'', \<lparr>token = ''a'', registered_at = ''t1'', last_active = ''t1'',
                         successful_sends = 2, failed_sends = 1, is_active = False\<rparr>),
                (''b'', \<lparr>token = ''b'', registered_at = ''t2'', last_active = ''t4'',
                         successful_sends = 3, failed_sends = 5, is_active = False\<rparr>)],
      max_tokens = 2\<rparr>))) ''a'' =
     Some \<lparr>token = ''a'', registered_at = ''t1'', last_active = ''t1'',
           successful_sends = 2, failed_sends = 1, is_active = False\<rparr>"
  using reregister_no_eviction [of
     "\<lparr>tokens = [(''a'', \<lparr>token = ''a'', registered_at = ''t1'', last_active = ''t1'',
                         successful_sends = 2, failed_sends = 1, is_active = False\<rparr>),
                (''b'', \<lparr>token = ''b'', registered_at = ''t2'', last_active = ''t4'',
                         successful_sends = 3, failed_sends = 5, is_active = False\<rparr>)],
      max_tokens = 2\<rparr>" "''b''"
     "\<lparr>token = ''b'', registered_at = ''t2'', last_active = ''t4'',
       successful_sends = 3, failed_sends = 5, is_active = False\<rparr>" "''t9''"]
  by simp

lemma register_token_valid_present:
  assumes "t \<noteq> []" and "map_of (tokens tm) t = Some v"
  shows "register_token now (PStr t) tm =
           (Inr \<lparr>is_new = False, token_count = int (length (tokens tm))\<rparr>,
            tm\<lparr>tokens := AList.map_entry t (\<lambda>obj. obj\<lparr>is_active := True\<rparr>)
                (AList.map_entry t (\<lambda>obj. obj\<lparr>last_active := now\<rparr>) (tokens tm))\<rparr>)"
  using assms by (simp add: register_token_def Let_def map_entry_length)

lemma register_token_valid_absent:
  assumes "t \<noteq> []" and "map_of (tokens tm) t = None"
  shows "\<exists>al. register_token now (PStr t) tm =
           (Inr \<lparr>is_new = True, token_count = int (length (AList.update t (new_FCMToken t now now) al))\<rparr>,
            tm\<lparr>tokens := AList.update t (new_FCMToken t now now) al\<rparr>)"
  using assms by (auto simp add: register_token_def Let_def cleanup_inactive_tokens_def)

text \<open>
  C5. Registering a non-empty identifier twice in a row: the first call reports
  \<open>is_new = True\<close> exactly when the identifier was not in the registry before it (so a
  first registration followed by a second one yields true, then false), the second call
  always reports \<open>is_new = False\<close>, and both calls report the same count, the size of
  the registry after the first call. The second call inserts nothing: keys and order
  stay, every other record is unchanged, and the record of the identifier changes in
  \<open>last_active\<close> and \<open>is_active\<close> only.
\<close>

theorem register_twice:
  assumes "t \<noteq> []"
  shows "let first = register_token now1 (PStr t) tm;
             second = register_token now2 (PStr t) (snd first)
         in fst first = Inr \<lparr>is_new = (map_of (tokens tm) t = None),
                              token_count = int (length (tokens (snd first)))\<rparr> \<and>
            fst second = Inr \<lparr>is_new = False,
                               token_count = int (length (tokens (snd first)))\<rparr> \<and>
            map fst (tokens (snd second)) = map fst (tokens (snd first)) \<and>
            filter (\<lambda>p. fst p \<noteq> t) (tokens (snd second)) =
              filter (\<lambda>p. fst p \<noteq> t) (tokens (snd first)) \<and>
            map_of (tokens (snd first)) t \<noteq> None \<and>
            map_of (tokens (snd second)) t =
              map_option (\<lambda>v. v\<lparr>last_active := now2, is_active := True\<rparr>)
                (map_of (tokens (snd first)) t)"
proof -
  obtain r1 tm1 where first: "register_token now1 (PStr t) tm = (r1, tm1)"
    by (cases "register_token now1 (PStr t) tm")
  have "\<exists>v. r1 = Inr \<lparr>is_new = (map_of (tokens tm) t = None),
                       token_count = int (length (tokens tm1))\<rparr> \<and>
             map_of (tokens tm1) t = Some v"
  proof (cases "map_of (tokens tm) t")
    case None
    from register_token_valid_absent [OF assms None, of now1] first None
    show ?thesis by (auto simp: AList.update_conv')
  next
    case (Some v)
    from register_token_valid_present [OF assms Some, of now1] first Some
    show ?thesis by (auto simp: AList.map_of_map_entry map_entry_length)
  qed
  then obtain v where r1: "r1 = Inr \<lparr>is_new = (map_of (tokens tm) t = None),
                                      token_count = int (length (tokens tm1))\<rparr>"
    and v: "map_of (tokens tm1) t = Some v"
    by (elim exE conjE)
  note second = register_token_valid_present [OF assms v, of now2]
  show ?thesis
    using first r1 v second
    by (simp add: Let_def map_entry_keys map_entry_others AList.map_of_map_entry)
qed

theorem register_twice_witness:
  "fst (register_token ''t1'' (PStr ''tok-A'') (TokenManager_init 10000)) =
     Inr \<lparr>is_new = True, token_count = 1\<rparr> \<and>
   fst (register_token ''t2'' (PStr ''tok-A'')
         (snd (register_token ''t1'' (PStr ''tok-A'') (TokenManager_init 10000)))) =
     Inr \<lparr>is_new = False, token_count = 1\<rparr> \<and>
   map_of (tokens (snd (register_token ''t2'' (PStr ''tok-A'')
         (snd (register_token ''t1'' (PStr ''tok-A'') (TokenManager_init 10000)))))) ''tok-A'' =
     Some \<lparr>token = ''tok-A'', registered_at = ''t1'', last_active = ''t2'',
           successful_sends = 0, failed_sends = 0, is_active = True\<rparr>"
  using register_twice [of "''tok-A''" "''t1''" "TokenManager_init 10000" "''t2''"]
  by (simp add: Let_def register_token_def TokenManager_init_def new_FCMToken_def)

section \<open>Reachable registries\<close>

lemma registry_ok_init: "registry_ok (TokenManager_init m)"
  by (simp add: registry_ok_def TokenManager_init_def)

lemma registry_ok_key_nonempty:
  assumes "registry_ok tm" and "map_of (tokens tm) t = Some v"
  shows "t \<noteq> [] \<and> token v = t"
proof -
  have "(t, v) \<in> set (tokens tm)"
    using assms(2) by (rule map_of_SomeD)
  moreover have "\<forall>p \<in> set (tokens tm). token (snd p) = fst p \<and> fst p \<noteq> []"
    using assms(1) by (simp add: registry_ok_def list_all_iff split_def)
  ultimately have "token (snd (t, v)) = fst (t, v) \<and> fst (t, v) \<noteq> []"
    by blast
  then show ?thesis by simp
qed

lemma distinct_fold_delete:
  "distinct (map fst al) \<Longrightarrow> distinct (map fst (fold AList.delete ks al))"
  by (induction ks arbitrary: al) (simp_all add: AList.distinct_delete)

lemma list_all_map_entry:
  assumes "list_all (\<lambda>(k, v). P k v) al" and "\<And>k v. P k v \<Longrightarrow> P k (f v)"
  shows "list_all (\<lambda>(k, v). P k v) (AList.map_entry t f al)"
  using assms by (induction al) (auto split: prod.splits)

lemma list_all_update:
  assumes "list_all (\<lambda>(k, v). P k v) al" and "P t w"
  shows "list_all (\<lambda>(k, v). P k v) (AList.update t w al)"
  using assms by (induction al) (auto split: prod.splits)

lemma cleanup_ok: "registry_ok tm \<Longrightarrow> registry_ok (cleanup_inactive_tokens tm)"
  by (simp add: registry_ok_def cleanup_inactive_tokens_def distinct_fold_delete)
     (simp add: fold_delete_filter list_all_iff)

lemma register_token_ok:
  assumes "registry_ok tm"
  shows "registry_ok (snd (register_token now v tm))"
proof (cases "\<not> truthy v \<or> \<not> isinstance_str v")
  case True
  then show ?thesis using assms by (simp add: register_token_def)
next
  case False
  then obtain t where v: "v = PStr t" and t: "t \<noteq> []"
    by (cases v) auto
  show ?thesis
  proof (cases "map_of (tokens tm) t")
    case None
    let ?tm1 = "if max_tokens tm \<le> int (length (tokens tm))
                then cleanup_inactive_tokens tm else tm"
    have ok1: "registry_ok ?tm1"
      using assms by (simp add: cleanup_ok)
    have "snd (register_token now v tm) =
            ?tm1\<lparr>tokens := AList.update t (new_FCMToken t now now) (tokens ?tm1)\<rparr>"
      using None t by (simp add: v register_token_def Let_def)
    moreover have "registry_ok (?tm1\<lparr>tokens := AList.update t (new_FCMToken t now now) (tokens ?tm1)\<rparr>)"
      using ok1 t unfolding registry_ok_def
      by (simp add: AList.distinct_update list_all_update new_FCMToken_def del: split_paired_All)
    ultimately show ?thesis by simp
  next
    case (Some w)
    have "registry_ok (tm\<lparr>tokens := AList.map_entry t (\<lambda>obj. obj\<lparr>is_active := True\<rparr>)
                (AList.map_entry t (\<lambda>obj. obj\<lparr>last_active := now\<rparr>) (tokens tm))\<rparr>)"
      using assms unfolding registry_ok_def
      by (simp add: AList.distinct_map_entry list_all_map_entry)
    then show ?thesis
      by (simp add: v register_token_valid_present [OF t Some])
  qed
qed

section \<open>Recording results\<close>

lemma update_one_refines:
  "map_of (tokens (update_one now r tm)) = record_outcome_spec now r (map_of (tokens tm))"
proof (cases "map_of (tokens tm) (r_token r)")
  case None
  then show ?thesis by (simp add: update_one_def record_outcome_spec_def)
next
  case (Some v)
  then show ?thesis
    by (cases "r_error_code r")
       (auto simp add: update_one_def record_outcome_spec_def Let_def AList.map_of_map_entry)
qed

lemma update_one_keys: "map fst (tokens (update_one now r tm)) = map fst (tokens tm)"
  by (simp add: update_one_def Let_def map_entry_keys)

lemma update_one_max_tokens: "max_tokens (update_one now r tm) = max_tokens tm"
  by (simp add: update_one_def Let_def)

lemma update_token_stats_from_refines:
  "map_of (tokens (update_token_stats_from clock i rs tm)) =
     record_results_spec clock i rs (map_of (tokens tm))"
  by (induction rs arbitrary: i tm) (simp_all add: update_one_refines)

lemma update_token_stats_from_keys:
  "map fst (tokens (update_token_stats_from clock i rs tm)) = map fst (tokens tm)"
  by (induction rs arbitrary: i tm) (simp_all add: update_one_keys)

lemma update_token_stats_from_max_tokens:
  "max_tokens (update_token_stats_from clock i rs tm) = max_tokens tm"
  by (induction rs arbitrary: i tm) (simp_all add: update_one_max_tokens)

lemma update_one_ok: "registry_ok tm \<Longrightarrow> registry_ok (update_one now r tm)"
  by (simp add: update_one_def Let_def registry_ok_def AList.distinct_map_entry
        list_all_map_entry)

lemma update_token_stats_from_ok:
  "registry_ok tm \<Longrightarrow> registry_ok (update_token_stats_from clock i rs tm)"
  by (induction rs arbitrary: i tm) (simp_all add: update_one_ok)

text \<open>
  C6. For every registry and every list of results, \<open>update_token_stats\<close> does to the
  registry, read as a map from identifiers to records, what the specification says of
  \<^verbatim>\<open>recordResults\<close>: each result in turn leaves the map as it is when its identifier is
  absent; when present, a success adds one to \<open>successful_sends\<close> and sets \<open>last_active\<close>
  to the time of that step, a failure adds one to \<open>failed_sends\<close> and sets \<open>is_active\<close> to
  false exactly when its code is \<open>UNREGISTERED\<close> or \<open>INVALID_ARGUMENT\<close>, leaving it as it was
  for any other code. The keys, their order and \<open>max_tokens\<close> do not change.
\<close>

theorem update_token_stats_refines:
  "map_of (tokens (update_token_stats clock results tm)) =
     record_results_spec clock 0 results (map_of (tokens tm)) \<and>
   map fst (tokens (update_token_stats clock results tm)) = map fst (tokens tm) \<and>
   max_tokens (update_token_stats clock results tm) = max_tokens tm"
  by (simp add: update_token_stats_def update_token_stats_from_refines
        update_token_stats_from_keys update_token_stats_from_max_tokens)

theorem update_token_stats_refines_witness:
  "map_of (tokens (update_token_stats example_clock example_results
                     (token_manager example_server))) ''a'' =
     Some \<lparr>token = ''a'', registered_at = ''t1'', last_active = ''t1'',
           successful_sends = 2, failed_sends = 2, is_active = False\<rparr> \<and>
   map_of (tokens (update_token_stats example_clock example_results
                     (token_manager example_server))) ''b'' =
     Some \<lparr>token = ''b'', registered_at = ''t2'', last_active = ''t10'',
           successful_sends = 4, failed_sends = 6, is_active = False\<rparr> \<and>
   map_of (tokens (update_token_stats example_clock example_results
                     (token_manager example_server))) ''zz'' = None \<and>
   map fst (tokens (update_token_stats example_clock example_results
                     (token_manager example_server))) = [''a'', ''b'']"
  using update_token_stats_refines [of example_clock example_results "token_manager example_server"]
  by (simp add: example_server_def example_results_def example_clock_def record_outcome_spec_def)

section \<open>Statistics\<close>

lemma sum_list_ones: "sum_list (map (\<lambda>t. 1::int) xs) = int (length xs)"
  by (induction xs) simp_all

text \<open>
  C9. \<open>get_stats\<close> returns the number of records as the total, the number of records with
  \<open>is_active\<close> true as active, the total minus active as inactive (which is the number of
  records with \<open>is_active\<close> false, so total = active + inactive), the sum of all
  \<open>successful_sends\<close> and the sum of all \<open>failed_sends\<close>; the registry after the call is
  the registry before it.
\<close>

theorem get_stats_aggregates:
  "fst (get_stats tm) =
     \<lparr>total_tokens = int (length (tokens tm)),
      active_tokens = int (length (filter (\<lambda>p. is_active (snd p)) (tokens tm))),
      inactive_tokens = int (length (filter (\<lambda>p. \<not> is_active (snd p)) (tokens tm))),
      total_successful_sends = (\<Sum>p\<leftarrow>tokens tm. successful_sends (snd p)),
      total_failed_sends = (\<Sum>p\<leftarrow>tokens tm. failed_sends (snd p))\<rparr> \<and>
   inactive_tokens (fst (get_stats tm)) =
     total_tokens (fst (get_stats tm)) - active_tokens (fst (get_stats tm)) \<and>
   total_tokens (fst (get_stats tm)) =
     active_tokens (fst (get_stats tm)) + inactive_tokens (fst (get_stats tm)) \<and>
   snd (get_stats tm) = tm"
proof -
  have act: "filter is_active (map snd (tokens tm)) =
             map snd (filter (\<lambda>p. is_active (snd p)) (tokens tm))"
    by (simp add: filter_map comp_def)
  have cnt: "sum_list (map (\<lambda>t. 1::int) (filter is_active (map snd (tokens tm)))) =
             int (length (filter (\<lambda>p. is_active (snd p)) (tokens tm)))"
    by (simp only: sum_list_ones act length_map)
  have split: "int (length (tokens tm)) =
               int (length (filter (\<lambda>p. is_active (snd p)) (tokens tm))) +
               int (length (filter (\<lambda>p. \<not> is_active (snd p)) (tokens tm)))"
    using sum_length_filter_compl [of "\<lambda>p. is_active (snd p)" "tokens tm"] by simp
  have stats: "fst (get_stats tm) =
     \<lparr>total_tokens = int (length (tokens tm)),
      active_tokens = int (length (filter (\<lambda>p. is_active (snd p)) (tokens tm))),
      inactive_tokens = int (length (tokens tm)) -
         int (length (filter (\<lambda>p. is_active (snd p)) (tokens tm))),
      total_successful_sends = (\<Sum>p\<leftarrow>tokens tm. successful_sends (snd p)),
      total_failed_sends = (\<Sum>p\<leftarrow>tokens tm. failed_sends (snd p))\<rparr>"
    by (simp add: get_stats_def Let_def cnt comp_def)
  have frame: "snd (get_stats tm) = tm"
    by (simp add: get_stats_def Let_def)
  show ?thesis
    using split by (simp add: stats frame)
qed

theorem get_stats_aggregates_witness:
  "fst (get_stats
     \<lparr>tokens = [(''a'', \<lparr>token = ''a'', registered_at = ''t1'', last_active = ''t1'',
                         successful_sends = 2, failed_sends = 1, is_active = False\<rparr>),
                (''b'', \<lparr>token = ''b'', registered_at = ''t2'', last_active = ''t4'',
                         successful_sends = 3, failed_sends = 5, is_active = True\<rparr>),
                (''c'', \<lparr>token = ''c'', registered_at = ''t3'', last_active = ''t5'',
                         successful_sends = 4, failed_sends = 0, is_active = True\<rparr>)],
      max_tokens = 10\<rparr>) =
   \<lparr>total_tokens = 3, active_tokens = 2, inactive_tokens = 1,
    total_successful_sends = 9, total_failed_sends = 6\<rparr>"
  using get_stats_aggregates [of
     "\<lparr>tokens = [(''a'', \<lparr>token = ''a'', registered_at = ''t1'', last_active = ''t1'',
                         successful_sends = 2, failed_sends = 1, is_active = False\<rparr>),
                (''b'', \<lparr>token = ''b'', registered_at = ''t2'', last_active = ''t4'',
                         successful_sends = 3, failed_sends = 5, is_active = True\<rparr>),
                (''c'', \<lparr>token = ''c'', registered_at = ''t3'', last_active = ''t5'',
                         successful_sends = 4, failed_sends = 0, is_active = True\<rparr>)],
      max_tokens = 10\<rparr>"]
  by simp

section \<open>Removal\<close>

lemma remove_token_ok: "registry_ok tm \<Longrightarrow> registry_ok (snd (remove_token t tm))"
  by (simp add: remove_token_def registry_ok_def AList.distinct_delete)
     (simp add: AList.delete_eq list_all_iff)

section \<open>Broadcast\<close>

lemma send_message_token_manager:
  "token_manager (snd (send_message prov now t title body data s)) = token_manager s"
  by (simp add: send_message_def Let_def split: provider_outcome.split)

lemma send_all_token_manager:
  "token_manager (snd (send_all prov clock i title body ts s)) = token_manager s"
proof (induction ts arbitrary: i s)
  case Nil
  show ?case by simp
next
  case (Cons t ts)
  show ?case
    by (simp add: split_beta Let_def Cons.IH send_message_token_manager)
qed

lemma broadcast_token_manager:
  "token_manager (snd (broadcast prov clock title body s)) = token_manager s"
  by (simp add: broadcast_def get_active_tokens_def split_beta Let_def send_all_token_manager)

lemma send_push_token_manager:
  "token_manager (snd (send_push prov clock request s)) = token_manager s"
  by (simp add: send_push_def Let_def broadcast_token_manager split: option.split)

text \<open>
  C2. A broadcast leaves the token manager exactly as it found it, whatever the provider
  answers: no record's \<open>successful_sends\<close>, \<open>failed_sends\<close>, \<open>last_active\<close> or \<open>is_active\<close>
  changes, since the results of the sends are not fed back into the registry. This holds
  for the broadcast proper and for the whole \<^verbatim>\<open>/send\<close> handler on any request.
\<close>

theorem broadcast_leaves_registry:
  "token_manager (snd (broadcast prov clock title body s)) = token_manager s \<and>
   token_manager (snd (send_push prov clock request s)) = token_manager s"
  by (simp add: broadcast_token_manager send_push_token_manager)

theorem broadcast_leaves_registry_witness:
  "token_manager (snd (broadcast example_provider example_clock (PStr ''Hi'') (PStr ''Body'')
                         example_server)) = token_manager example_server \<and>
   token_manager (snd (send_push example_provider example_clock
                         (Some (PDict [(''title'', PStr ''Hi'')])) example_server)) =
     token_manager example_server \<and>
   map msg_token (outbox (snd (broadcast example_provider example_clock (PStr ''Hi'') (PStr ''Body'')
                         example_server))) = [''a'']"
  using broadcast_leaves_registry [of example_provider example_clock "PStr ''Hi''" "PStr ''Body''"
      example_server "Some (PDict [(''title'', PStr ''Hi'')])"]
  by (simp add: broadcast_def get_active_tokens_def send_message_def Let_def
        example_server_def example_provider_def)

lemma no_active_tokens:
  assumes "\<forall>p \<in> set (tokens tm). \<not> is_active (snd p)"
  shows "get_active_tokens tm = ([], tm)"
  using assms by (simp add: get_active_tokens_def filter_empty_conv)

lemma broadcast_no_active:
  assumes "\<forall>p \<in> set (tokens (token_manager s)). \<not> is_active (snd p)"
  shows "broadcast prov clock title body s = ((ErrorBody ''No active tokens to send to'', 400), s)"
  by (simp add: broadcast_def no_active_tokens [OF assms])

text \<open>
  C4. When no record of the registry is active, a broadcast answers with status 400 and
  the error \<open>No active tokens to send to\<close>, and the state after it is the state before it:
  nothing was handed to the provider and the registry is unchanged. The \<^verbatim>\<open>/send\<close> handler
  leaves the state unchanged on every request, and gives that answer on every request
  whose body is a non-empty JSON object.
\<close>

theorem broadcast_no_recipients:
  assumes "\<forall>p \<in> set (tokens (token_manager s)). \<not> is_active (snd p)"
  shows "broadcast prov clock title body s =
           ((ErrorBody ''No active tokens to send to'', 400), s) \<and>
         snd (send_push prov clock request s) = s \<and>
         (truthy data \<and> isinstance_dict data \<longrightarrow>
            send_push prov clock (Some data) s =
              ((ErrorBody ''No active tokens to send to'', 400), s))"
  by (simp add: send_push_def Let_def broadcast_no_active [OF assms] split: option.split)

theorem broadcast_no_recipients_witness:
  "broadcast example_provider example_clock (PStr ''Hi'') (PStr ''Body'') example_idle_server =
     ((ErrorBody ''No active tokens to send to'', 400), example_idle_server) \<and>
   send_push example_provider example_clock (Some (PDict [(''title'', PStr ''Hi'')]))
       example_idle_server =
     ((ErrorBody ''No active tokens to send to'', 400), example_idle_server) \<and>
   outbox (snd (send_push example_provider example_clock None example_idle_server)) = []"
proof -
  have idle: "\<forall>p \<in> set (tokens (token_manager example_idle_server)). \<not> is_active (snd p)"
    by (simp add: example_idle_server_def)
  have empty: "outbox example_idle_server = []"
    by (simp add: example_idle_server_def)
  show ?thesis
    using broadcast_no_recipients [OF idle, of example_provider example_clock "PStr ''Hi''"
        "PStr ''Body''" "Some (PDict [(''title'', PStr ''Hi'')])" "PDict [(''title'', PStr ''Hi'')]"]
      broadcast_no_recipients [OF idle, of example_provider example_clock "PStr ''Hi''"
        "PStr ''Body''" None PNone]
    by (simp add: empty)
qed

section \<open>Sequences of calls keep the registry well formed\<close>

lemma step_ok:
  assumes "registry_ok (token_manager s)"
  shows "registry_ok (token_manager (step c s))"
  using assms
  by (cases c)
     (simp_all add: register_token_ok remove_token_ok get_active_tokens_def
        update_token_stats_def update_token_stats_from_ok get_stats_def Let_def
        send_push_token_manager)

lemma run_ok:
  "registry_ok (token_manager s) \<Longrightarrow> registry_ok (token_manager (run calls s))"
  unfolding run_def by (induction calls arbitrary: s) (simp_all add: step_ok)

text \<open>
  On such a registry the eviction removes exactly the inactive records and keeps the
  active ones in their order, and the list of active tokens is the list of their keys.
\<close>

lemma cleanup_evicts_inactive:
  assumes "registry_ok tm"
  shows "tokens (cleanup_inactive_tokens tm) = filter (\<lambda>p. is_active (snd p)) (tokens tm)"
proof -
  have d: "distinct (map fst (tokens tm))"
    using assms by (simp add: registry_ok_def)
  have "fst p \<notin> fst ` {q \<in> set (tokens tm). \<not> is_active (snd q)} \<longleftrightarrow> is_active (snd p)"
    if p: "p \<in> set (tokens tm)" for p
  proof
    assume "fst p \<notin> fst ` {q \<in> set (tokens tm). \<not> is_active (snd q)}"
    then show "is_active (snd p)" using p by force
  next
    assume act: "is_active (snd p)"
    show "fst p \<notin> fst ` {q \<in> set (tokens tm). \<not> is_active (snd q)}"
    proof
      assume "fst p \<in> fst ` {q \<in> set (tokens tm). \<not> is_active (snd q)}"
      then obtain q where q: "q \<in> set (tokens tm)" "\<not> is_active (snd q)" "fst q = fst p"
        by auto
      have "map_of (tokens tm) (fst p) = Some (snd p)"
        using d p by (simp add: map_of_is_SomeI)
      moreover have "map_of (tokens tm) (fst p) = Some (snd q)"
        using d q by (metis map_of_is_SomeI prod.collapse)
      ultimately show False using act q(2) by simp
    qed
  qed
  then have "filter (\<lambda>p. fst p \<notin> fst ` {q \<in> set (tokens tm). \<not> is_active (snd q)}) (tokens tm) =
             filter (\<lambda>p. is_active (snd p)) (tokens tm)"
    by (intro filter_cong) auto
  then show ?thesis
    by (simp add: cleanup_inactive_tokens_def fold_delete_filter split_def)
qed

lemma get_active_tokens_keys:
  assumes "registry_ok tm"
  shows "fst (get_active_tokens tm) = map fst (filter (\<lambda>p. is_active (snd p)) (tokens tm))"
proof -
  have "\<forall>p \<in> set (tokens tm). token (snd p) = fst p"
    using assms by (auto simp add: registry_ok_def list_all_iff)
  then have "map (token \<circ> snd) (filter (\<lambda>p. is_active (snd p)) (tokens tm)) =
             map fst (filter (\<lambda>p. is_active (snd p)) (tokens tm))"
    by (intro map_cong) auto
  then show ?thesis
    by (simp add: get_active_tokens_def filter_map comp_def)
qed

section \<open>Inactive records stay inactive\<close>

lemma inactive_not_active: "inactive_in tm k \<Longrightarrow> \<not> active_in tm k"
  by (simp add: inactive_in_def active_in_def split: option.splits)

lemma update_one_not_active:
  "\<not> active_in tm k \<Longrightarrow> \<not> active_in (update_one now r tm) k"
  by (auto simp add: active_in_def update_one_refines record_outcome_spec_def
        split: option.splits if_splits)

lemma update_one_inactive:
  "inactive_in tm k \<Longrightarrow> inactive_in (update_one now r tm) k"
  by (auto simp add: inactive_in_def update_one_refines record_outcome_spec_def
        split: option.splits if_splits)

lemma update_one_present:
  "map_of (tokens tm) k \<noteq> None \<Longrightarrow> map_of (tokens (update_one now r tm)) k \<noteq> None"
  by (auto simp add: update_one_refines record_outcome_spec_def split: option.splits)

lemma update_one_deactivates:
  assumes "map_of (tokens tm) (r_token r) \<noteq> None" and "\<not> r_success r"
    and "r_error_code r = Some ''UNREGISTERED''"
  shows "inactive_in (update_one now r tm) (r_token r)"
  using assms
  by (auto simp add: inactive_in_def update_one_refines record_outcome_spec_def)

lemma update_token_stats_from_not_active:
  "\<not> active_in tm k \<Longrightarrow> \<not> active_in (update_token_stats_from clock i rs tm) k"
  by (induction rs arbitrary: i tm) (simp_all add: update_one_not_active)

lemma update_token_stats_from_inactive:
  "inactive_in tm k \<Longrightarrow> inactive_in (update_token_stats_from clock i rs tm) k"
  by (induction rs arbitrary: i tm) (simp_all add: update_one_inactive)

lemma update_token_stats_from_deactivates:
  assumes "r \<in> set rs" and "r_token r = k" and "\<not> r_success r"
    and "r_error_code r = Some ''UNREGISTERED''"
    and "map_of (tokens tm) k \<noteq> None"
  shows "inactive_in (update_token_stats_from clock i rs tm) k"
  using assms
proof (induction rs arbitrary: i tm)
  case Nil
  then show ?case by simp
next
  case (Cons x rs)
  show ?case
  proof (cases "x = r")
    case True
    have "inactive_in (update_one (clock i) r tm) k"
      using update_one_deactivates [of tm r "clock i"] Cons.prems by simp
    then show ?thesis
      using True by (simp add: update_token_stats_from_inactive)
  next
    case False
    then have "r \<in> set rs" using Cons.prems(1) by simp
    moreover have "map_of (tokens (update_one (clock i) x tm)) k \<noteq> None"
      using Cons.prems(5) by (rule update_one_present)
    ultimately show ?thesis
      using Cons.IH Cons.prems(2,3,4) by simp
  qed
qed

lemma register_token_not_active:
  assumes "v \<noteq> PStr k" and "\<not> active_in tm k"
  shows "\<not> active_in (snd (register_token now v tm)) k"
proof (cases "\<not> truthy v \<or> \<not> isinstance_str v")
  case True
  then show ?thesis using assms(2) by (simp add: register_token_def)
next
  case False
  then obtain t where v: "v = PStr t" and t: "t \<noteq> []"
    by (cases v) auto
  from v assms(1) have neq: "t \<noteq> k" by simp
  show ?thesis
  proof (cases "map_of (tokens tm) t")
    case None
    have "map_of (tokens (cleanup_inactive_tokens tm)) k = None \<or>
          map_of (tokens (cleanup_inactive_tokens tm)) k = map_of (tokens tm) k"
      by (rule map_of_cleanup)
    then show ?thesis
      using assms(2) None neq t
      by (auto simp add: v register_token_def Let_def active_in_def AList.update_conv'
            split: option.splits)
  next
    case (Some w)
    then show ?thesis
      using assms(2) neq t
      by (simp add: v register_token_def Let_def active_in_def AList.map_of_map_entry)
  qed
qed

lemma register_token_activates:
  assumes "k \<noteq> []"
  shows "active_in (snd (register_token now (PStr k) tm)) k"
proof (cases "map_of (tokens tm) k")
  case None
  then show ?thesis
    using assms
    by (simp add: register_token_def Let_def active_in_def AList.update_conv' new_FCMToken_def)
next
  case (Some w)
  then show ?thesis
    using assms
    by (simp add: register_token_def Let_def active_in_def AList.map_of_map_entry)
qed

lemma remove_token_not_active:
  "\<not> active_in tm k \<Longrightarrow> \<not> active_in (snd (remove_token t tm)) k"
  by (auto simp add: remove_token_def active_in_def AList.delete_conv' split: option.splits)

lemma remove_token_inactive:
  "t \<noteq> k \<Longrightarrow> inactive_in tm k \<Longrightarrow> inactive_in (snd (remove_token t tm)) k"
  by (auto simp add: remove_token_def inactive_in_def AList.delete_conv' split: option.splits)

lemma step_not_active:
  assumes "\<not> registers k c" and "\<not> active_in (token_manager s) k"
  shows "\<not> active_in (token_manager (step c s)) k"
proof (cases c)
  case (Register now v)
  then show ?thesis using assms by (simp add: register_token_not_active)
next
  case (Unregister t)
  then show ?thesis using assms by (simp add: remove_token_not_active)
next
  case ListActive
  then show ?thesis using assms by (simp add: get_active_tokens_def)
next
  case (RecordResults clock results)
  then show ?thesis
    using assms by (simp add: update_token_stats_def update_token_stats_from_not_active)
next
  case Stats
  then show ?thesis using assms by (simp add: get_stats_def Let_def)
next
  case (Broadcast prov clock request)
  then show ?thesis using assms by (simp add: send_push_token_manager)
qed

lemma step_inactive:
  assumes "leaves_record k c" and "inactive_in (token_manager s) k"
  shows "inactive_in (token_manager (step c s)) k"
proof (cases c)
  case (Register now v)
  then show ?thesis using assms by simp
next
  case (Unregister t)
  then show ?thesis using assms by (simp add: remove_token_inactive)
next
  case ListActive
  then show ?thesis using assms by (simp add: get_active_tokens_def)
next
  case (RecordResults clock results)
  then show ?thesis
    using assms by (simp add: update_token_stats_def update_token_stats_from_inactive)
next
  case Stats
  then show ?thesis using assms by (simp add: get_stats_def Let_def)
next
  case (Broadcast prov clock request)
  then show ?thesis using assms by (simp add: send_push_token_manager)
qed

lemma run_not_active:
  assumes "\<forall>c \<in> set calls. \<not> registers k c" and "\<not> active_in (token_manager s) k"
  shows "\<not> active_in (token_manager (run calls s)) k"
  using assms unfolding run_def
  by (induction calls arbitrary: s) (simp_all add: step_not_active)

lemma run_inactive:
  assumes "\<forall>c \<in> set calls. leaves_record k c" and "inactive_in (token_manager s) k"
  shows "inactive_in (token_manager (run calls s)) k"
  using assms unfolding run_def
  by (induction calls arbitrary: s) (simp_all add: step_inactive)

text \<open>
  C7. Let \<open>calls\<close> be any sequence of calls none of which registers the identifier \<open>k\<close>.
  If \<open>k\<close> is not active before the sequence, it is not active after it. In particular,
  when \<open>k\<close> has a record and a list of results holds a failure for \<open>k\<close> with code
  \<open>UNREGISTERED\<close>, recording that list leaves the record of \<open>k\<close> inactive; \<open>k\<close> is then not
  active after \<open>calls\<close>, and if \<open>calls\<close> only records results, unregisters other
  identifiers, lists, reads statistics or broadcasts, the record is still there and
  still inactive. Registering \<open>k\<close> again (a non-empty string) makes it active.
\<close>

theorem inactive_until_reregistered:
  assumes "\<forall>c \<in> set calls. \<not> registers k c"
  shows "(\<not> active_in (token_manager s) k \<longrightarrow> \<not> active_in (token_manager (run calls s)) k) \<and>
         (map_of (tokens (token_manager s)) k \<noteq> None \<and> r \<in> set results \<and> r_token r = k \<and>
          \<not> r_success r \<and> r_error_code r = Some ''UNREGISTERED'' \<longrightarrow>
            inactive_in (token_manager (step (RecordResults clock results) s)) k \<and>
            \<not> active_in (token_manager (run calls (step (RecordResults clock results) s))) k \<and>
            ((\<forall>c \<in> set calls. leaves_record k c) \<longrightarrow>
               inactive_in (token_manager (run calls (step (RecordResults clock results) s))) k)) \<and>
         (k \<noteq> [] \<longrightarrow>
            active_in (snd (register_token now (PStr k) (token_manager (run calls s)))) k)"
proof (intro conjI impI)
  assume "\<not> active_in (token_manager s) k"
  then show "\<not> active_in (token_manager (run calls s)) k"
    using assms by (simp add: run_not_active)
next
  assume a: "map_of (tokens (token_manager s)) k \<noteq> None \<and> r \<in> set results \<and> r_token r = k \<and>
          \<not> r_success r \<and> r_error_code r = Some ''UNREGISTERED''"
  then show inact: "inactive_in (token_manager (step (RecordResults clock results) s)) k"
    by (simp add: update_token_stats_def update_token_stats_from_deactivates [of r results])
  then show "\<not> active_in (token_manager (run calls (step (RecordResults clock results) s))) k"
    using assms by (simp add: run_not_active inactive_not_active)
  assume "\<forall>c \<in> set calls. leaves_record k c"
  then show "inactive_in (token_manager (run calls (step (RecordResults clock results) s))) k"
    using inact by (simp add: run_inactive)
next
  assume "k \<noteq> []"
  then show "active_in (snd (register_token now (PStr k) (token_manager (run calls s)))) k"
    by (rule register_token_activates)
qed

theorem inactive_until_reregistered_witness:
  "\<not> active_in (token_manager
       (run [RecordResults example_clock example_results, Unregister ''b'', ListActive, Stats,
             Register ''t20'' (PStr ''c''),
             Broadcast example_provider example_clock (Some (PDict [(''title'', PStr ''Hi'')]))]
          (step (RecordResults example_clock example_results) example_server))) ''a'' \<and>
   inactive_in (token_manager
       (run [RecordResults example_clock example_results, Unregister ''b'', ListActive, Stats,
             Broadcast example_provider example_clock (Some (PDict [(''title'', PStr ''Hi'')]))]
          (step (RecordResults example_clock example_results) example_server))) ''a'' \<and>
   active_in (snd (register_token ''t30'' (PStr ''a'') (token_manager
       (run [RecordResults example_clock example_results, Unregister ''b'', ListActive, Stats,
             Broadcast example_provider example_clock (Some (PDict [(''title'', PStr ''Hi'')]))]
          (step (RecordResults example_clock example_results) example_server))))) ''a''"
proof -
  let ?r = "\<lparr>r_success = False, r_response = None, r_error = Some ''Token not registered'',
             r_token = ''a'', r_error_code = Some ''UNREGISTERED''\<rparr>"
  let ?quiet = "[RecordResults example_clock example_results, Unregister ''b'', ListActive, Stats,
             Broadcast example_provider example_clock (Some (PDict [(''title'', PStr ''Hi'')]))]"
  let ?calls = "[RecordResults example_clock example_results, Unregister ''b'', ListActive, Stats,
             Register ''t20'' (PStr ''c''),
             Broadcast example_provider example_clock (Some (PDict [(''title'', PStr ''Hi'')]))]"
  have no_reg: "\<forall>c \<in> set ?calls. \<not> registers ''a'' c" by simp
  have no_reg': "\<forall>c \<in> set ?quiet. \<not> registers ''a'' c" by simp
  have quiet: "\<forall>c \<in> set ?quiet. leaves_record ''a'' c" by simp
  have present: "map_of (tokens (token_manager example_server)) ''a'' \<noteq> None"
    by (simp add: example_server_def)
  have failure: "?r \<in> set example_results" by (simp add: example_results_def)
  show ?thesis
    using inactive_until_reregistered [OF no_reg, of example_server ?r example_results
        example_clock "''t30''"]
      inactive_until_reregistered [OF no_reg', of example_server ?r example_results
        example_clock "''t30''"]
      inactive_until_reregistered [OF no_reg',
        of "step (RecordResults example_clock example_results) example_server" ?r example_results
        example_clock "''t30''"]
      quiet present failure
    by simp
qed

section \<open>The size of the registry and \<open>max_tokens\<close>\<close>

lemma update_absent_length:
  "map_of al k = None \<Longrightarrow> length (AList.update k v al) = Suc (length al)"
  by (induction al) (auto split: if_splits)

lemma cleanup_all_active:
  assumes "\<forall>p \<in> set (tokens tm). is_active (snd p)"
  shows "cleanup_inactive_tokens tm = tm"
proof -
  have "filter (\<lambda>(token_str, token_obj). \<not> is_active token_obj) (tokens tm) = []"
    using assms by (auto simp: filter_empty_conv)
  then show ?thesis by (simp add: cleanup_inactive_tokens_def)
qed

text \<open>
  C1. The size of the registry is not kept within \<open>max_tokens\<close>. In a registry that holds
  \<open>max_tokens\<close> records or more, all of them active, registering a non-empty identifier
  that is not yet present evicts nothing (there is no inactive record) and inserts the
  new record all the same: the registry then holds one record more than before, which
  is more than \<open>max_tokens\<close>, and the call reports that count. The instance below is
  reached from the empty registry with \<open>max_tokens = 1\<close> by registering \<open>''a''\<close> and then
  \<open>''b''\<close>.
\<close>

theorem register_all_active_exceeds_max:
  assumes "max_tokens tm \<le> int (length (tokens tm))"
    and "\<forall>p \<in> set (tokens tm). is_active (snd p)"
    and "map_of (tokens tm) t = None"
    and "t \<noteq> []"
  shows "fst (register_token now (PStr t) tm) =
           Inr \<lparr>is_new = True, token_count = int (length (tokens tm)) + 1\<rparr> \<and>
         int (length (tokens (snd (register_token now (PStr t) tm)))) =
           int (length (tokens tm)) + 1 \<and>
         max_tokens (snd (register_token now (PStr t) tm)) = max_tokens tm \<and>
         max_tokens (snd (register_token now (PStr t) tm)) <
           int (length (tokens (snd (register_token now (PStr t) tm))))"
  using assms(1,3,4)
  by (simp add: register_token_def Let_def cleanup_all_active [OF assms(2)] update_absent_length)

theorem register_all_active_exceeds_max_witness:
  "int (length (tokens (snd (register_token ''t2'' (PStr ''b'')
      (snd (register_token ''t1'' (PStr ''a'') (TokenManager_init 1))))))) = 2 \<and>
   max_tokens (snd (register_token ''t2'' (PStr ''b'')
      (snd (register_token ''t1'' (PStr ''a'') (TokenManager_init 1))))) = 1 \<and>
   fst (register_token ''t2'' (PStr ''b'')
      (snd (register_token ''t1'' (PStr ''a'') (TokenManager_init 1)))) =
     Inr \<lparr>is_new = True, token_count = 2\<rparr>"
proof -
  have first: "snd (register_token ''t1'' (PStr ''a'') (TokenManager_init 1)) =
     \<lparr>tokens = [(''a'', \<lparr>token = ''a'', registered_at = ''t1'', last_active = ''t1'',
                         successful_sends = 0, failed_sends = 0, is_active = True\<rparr>)],
      max_tokens = 1\<rparr>"
    by (simp add: register_token_def TokenManager_init_def Let_def new_FCMToken_def
          cleanup_inactive_tokens_def)
  show ?thesis
    using register_all_active_exceeds_max [of
        "\<lparr>tokens = [(''a'', \<lparr>token = ''a'', registered_at = ''t1'', last_active = ''t1'',
                         successful_sends = 0, failed_sends = 0, is_active = True\<rparr>)],
          max_tokens = 1\<rparr>" "''b''" "''t2''"]
    by (simp add: first)
qed

end
